theory Spec2Isabelle
  imports Main
begin

section \<open>The arbiter of a two-player showdown (game.py)\<close>

text \<open>
  The arbiter runs two external programs and referees a duel between them. This theory
  embeds the contestant layer (\<open>Contestant.read\<close>, \<open>read_name\<close>, \<open>ask\<close>,
  \<open>tell\<close>, the \<open>name\<close> property), the turn engine (\<open>loop\<close>), the outcome
  resolver (\<open>finish\<close>), the snapshot writer (\<open>write_to_ui_queue\<close>) and the driver
  (\<open>game\<close>).

  What the operating system supplies is an explicit input of the model: whether a spawn
  succeeded, whether \<open>process.poll()\<close> found the process running, what
  \<open>stdout_queue.get\<close> returned within the timeout, and what \<open>random.choice\<close>
  drew. Python exceptions are values of type \<open>exn\<close>, returned on the left of a sum.
  Calls of the logger change no state read by the program and are left out; what
  \<open>print\<close> writes is collected in a list of lines.
\<close>

subsection \<open>Constants and commands\<close>

definition STARTUP_TIME :: int where "STARTUP_TIME = 10"
definition TURN_TIME :: int where "TURN_TIME = 1"
definition TOTAL_TURNS :: int where "TOTAL_TURNS = 100"
definition MAX_BULLETS :: int where "MAX_BULLETS = 6"

datatype Commands = STAND | SHOOT | DODGE | RELOAD | SHOOT_NO_BULLET | GAME_OVER

datatype exn = EOFError | TimeoutError | ValueError | UnicodeDecodeError | AttributeError
  | SystemExit

subsection \<open>Text and bytes\<close>

text \<open>
  A Python \<open>bytes\<close> object is a list of 8-bit characters (\<open>string\<close>); a Python
  \<open>str\<close> is a list of Unicode code points. A string literal of the source is the list
  of the code points of its ASCII characters.
\<close>

type_synonym bytes = string
type_synonym str = "nat list"

definition lit :: "string \<Rightarrow> str" where
  "lit s = map of_char s"

text \<open>\<open>bytes.decode("utf-8")\<close> in strict mode: shortest forms only, no surrogates,
  nothing above U+10FFFF; \<open>None\<close> stands for \<open>UnicodeDecodeError\<close>.\<close>

definition is_cont :: "nat \<Rightarrow> bool" where
  "is_cont b = (128 \<le> b \<and> b < 192)"

fun utf8_decode :: "nat list \<Rightarrow> str option" where
  "utf8_decode [] = Some []"
| "utf8_decode (b # bs) =
     (if b < 128 then map_option ((#) b) (utf8_decode bs)
      else if 194 \<le> b \<and> b < 224 then
        (case bs of
           c1 # r \<Rightarrow>
             if is_cont c1
             then map_option ((#) ((b - 192) * 64 + (c1 - 128))) (utf8_decode r)
             else None
         | _ \<Rightarrow> None)
      else if 224 \<le> b \<and> b < 240 then
        (case bs of
           c1 # c2 # r \<Rightarrow>
             if is_cont c1 \<and> is_cont c2 \<and> (b = 224 \<longrightarrow> 160 \<le> c1) \<and> (b = 237 \<longrightarrow> c1 < 160)
             then map_option ((#) ((b - 224) * 4096 + (c1 - 128) * 64 + (c2 - 128)))
                    (utf8_decode r)
             else None
         | _ \<Rightarrow> None)
      else if 240 \<le> b \<and> b < 245 then
        (case bs of
           c1 # c2 # c3 # r \<Rightarrow>
             if is_cont c1 \<and> is_cont c2 \<and> is_cont c3
                \<and> (b = 240 \<longrightarrow> 144 \<le> c1) \<and> (b = 244 \<longrightarrow> c1 < 144)
             then map_option
                    ((#) ((b - 240) * 262144 + (c1 - 128) * 4096 + (c2 - 128) * 64 + (c3 - 128)))
                    (utf8_decode r)
             else None
         | _ \<Rightarrow> None)
      else None)"

definition decode :: "bytes \<Rightarrow> exn + str" where
  "decode line = (case utf8_decode (map of_char line) of
                    None \<Rightarrow> Inl UnicodeDecodeError
                  | Some s \<Rightarrow> Inr s)"

text \<open>\<open>str.encode("utf-8")\<close>; the arbiter only encodes command tokens, which are ASCII,
  but the encoder is written for every code point (\<open>None\<close> for a surrogate or a value
  that is no code point).\<close>

definition encode_point :: "nat \<Rightarrow> nat list option" where
  "encode_point c =
     (if c < 128 then Some [c]
      else if c < 2048 then Some [192 + c div 64, 128 + c mod 64]
      else if 55296 \<le> c \<and> c < 57344 then None
      else if c < 65536 then Some [224 + c div 4096, 128 + (c div 64) mod 64, 128 + c mod 64]
      else if c < 1114112 then
        Some [240 + c div 262144, 128 + (c div 4096) mod 64, 128 + (c div 64) mod 64,
              128 + c mod 64]
      else None)"

fun utf8_encode :: "str \<Rightarrow> nat list option" where
  "utf8_encode [] = Some []"
| "utf8_encode (c # cs) =
     (case encode_point c of
        None \<Rightarrow> None
      | Some bs \<Rightarrow> map_option ((@) bs) (utf8_encode cs))"

definition encode :: "str \<Rightarrow> bytes option" where
  "encode s = map_option (map char_of) (utf8_encode s)"

text \<open>\<open>str.strip()\<close> removes the characters for which \<open>str.isspace\<close> holds from both
  ends.\<close>

definition isspace :: "nat \<Rightarrow> bool" where
  "isspace c = ((9 \<le> c \<and> c \<le> 13) \<or> (28 \<le> c \<and> c \<le> 32) \<or> c = 133 \<or> c = 160
                \<or> c = 5760 \<or> (8192 \<le> c \<and> c \<le> 8202) \<or> c = 8232 \<or> c = 8233
                \<or> c = 8239 \<or> c = 8287 \<or> c = 12288)"

definition strip :: "str \<Rightarrow> str" where
  "strip s = rev (dropWhile isspace (rev (dropWhile isspace s)))"

subsection \<open>The command enumeration\<close>

text \<open>\<open>value_of c\<close> is the attribute \<open>c.value\<close> of a member of the enumeration.\<close>

fun value_of :: "Commands \<Rightarrow> str" where
  "value_of STAND = lit ''stand''"
| "value_of SHOOT = lit ''shoot''"
| "value_of DODGE = lit ''dodge''"
| "value_of RELOAD = lit ''reload''"
| "value_of SHOOT_NO_BULLET = lit ''shoot_no_bullet''"
| "value_of GAME_OVER = lit ''game_over''"

text \<open>\<open>Commands(s)\<close>: the member whose value is \<open>s\<close>, or \<open>ValueError\<close>.\<close>

definition Commands_of :: "str \<Rightarrow> exn + Commands" where
  "Commands_of s =
     (case filter (\<lambda>c. value_of c = s) [STAND, SHOOT, DODGE, RELOAD, SHOOT_NO_BULLET, GAME_OVER] of
        [] \<Rightarrow> Inl ValueError
      | c # _ \<Rightarrow> Inr c)"

subsection \<open>Contestant\<close>

text \<open>
  An attribute of a Python object may be missing. \<open>Contestant.__init__\<close> returns early
  when the spawn fails, and then the object has \<open>call_args\<close> and \<open>exited\<close> only; while
  \<open>read_name\<close> runs, \<open>contestant_name\<close> is not yet assigned. The record
  \<open>Contestant_base\<close> holds the attributes that exist from the first two lines of
  \<open>__init__\<close> on, with \<open>contestant_name = None\<close> for a missing attribute;
  \<open>Contestant\<close> adds the attributes of a fully constructed object. The field
  \<open>stdin\<close> is the bytes written so far to the pipe \<open>process.stdin\<close>.
  The value assigned to \<open>contestant_name\<close> is what \<open>read_name\<close> returns, which is
  Python's \<open>None\<close> on two of its paths.
\<close>

datatype pyval = PyNone | PyStr str

record Contestant_base =
  call_args :: "str list"
  exited :: bool
  contestant_name :: "pyval option"

record Contestant = Contestant_base +
  bullets :: int
  num_dodges :: int
  latest_command :: "Commands option"
  stdin :: bytes

fun join :: "str \<Rightarrow> str list \<Rightarrow> str" where
  "join sep [] = []"
| "join sep [x] = x"
| "join sep (x # y # ys) = x @ sep @ join sep (y # ys)"

definition name :: "'a Contestant_base_scheme \<Rightarrow> pyval" where
  "name self = (case contestant_name self of
                  Some v \<Rightarrow> v
                | None \<Rightarrow> PyStr (join (lit '' '') (call_args self)))"

text \<open>How an f-string renders a value: \<open>None\<close> prints as the text \<open>None\<close>.\<close>

fun fmt :: "pyval \<Rightarrow> str" where
  "fmt PyNone = lit ''None''"
| "fmt (PyStr s) = s"

text \<open>What one call of \<open>read\<close> meets: the process has exited (\<open>poll()\<close> is not
  \<open>None\<close>), the queue stayed empty for the whole timeout, or a line was dequeued.\<close>

datatype read_event = ProcessExited | QueueEmpty | Line bytes

fun read :: "int \<Rightarrow> read_event \<Rightarrow> exn + str" where
  "read timeout ProcessExited = Inl EOFError"
| "read timeout QueueEmpty = Inl TimeoutError"
| "read timeout (Line line) =
     (case decode line of Inl e \<Rightarrow> Inl e | Inr s \<Rightarrow> Inr (strip s))"

text \<open>\<open>is_alive\<close>; \<open>running\<close> is whether \<open>process.poll()\<close> returned \<open>None\<close>.\<close>

definition is_alive :: "'a Contestant_base_scheme \<Rightarrow> bool \<Rightarrow> bool" where
  "is_alive self running = (\<not> exited self \<and> running)"

datatype spawn_result = Spawned | PermissionError | FileNotFoundError

text \<open>\<open>start\<close> returns the object and the lines printed.\<close>

definition start :: "Contestant_base \<Rightarrow> spawn_result \<Rightarrow> Contestant_base \<times> str list" where
  "start self sp =
     (case sp of
        PermissionError \<Rightarrow>
          (let self = self\<lparr>exited := True\<rparr>
           in (self, [lit ''Command '' @ [39] @ fmt (name self) @ [39]
                        @ lit '': Permission denied'']))
      | FileNotFoundError \<Rightarrow>
          (let self = self\<lparr>exited := True\<rparr>
           in (self, [lit ''Command '' @ [39] @ fmt (name self) @ [39] @ lit '' not found'']))
      | Spawned \<Rightarrow> (self, []))"

fun digits :: "nat \<Rightarrow> str" where
  "digits n = (if n < 10 then [48 + n] else digits (n div 10) @ [48 + n mod 10])"

declare digits.simps [simp del]

definition str_of_int :: "int \<Rightarrow> str" where
  "str_of_int i = (if i < 0 then 45 # digits (nat (- i)) else digits (nat i))"

text \<open>\<open>read_name\<close> returns the object, the value returned and the lines printed, or
  the exception that \<open>read\<close> raised and \<open>read_name\<close> does not catch.\<close>

definition read_name ::
  "Contestant_base \<Rightarrow> read_event \<Rightarrow> exn + (Contestant_base \<times> pyval \<times> str list)" where
  "read_name self ev =
     (case read STARTUP_TIME ev of
        Inl EOFError \<Rightarrow>
          (let self = self\<lparr>exited := True\<rparr>
           in Inr (self, PyNone, [fmt (name self) @ lit '' exited'']))
      | Inl TimeoutError \<Rightarrow>
          (let self = self\<lparr>exited := True\<rparr>
           in Inr (self, PyNone,
                   [fmt (name self) @ lit '' took more than '' @ str_of_int STARTUP_TIME
                      @ lit '' seconds to output its name'']))
      | Inl e \<Rightarrow> Inl e
      | Inr nm \<Rightarrow>
          if nm = []
          then Inr (self\<lparr>exited := True\<rparr>, PyStr nm,
                    [fmt (name self) @ lit '' didn'' @ [39] @ lit ''t send its name''])
          else Inr (self, PyStr nm, []))"

text \<open>\<open>Contestant.__init__\<close>. After a failed spawn the object stays a
  \<open>Contestant_base\<close>: the attributes \<open>bullets\<close>, \<open>num_dodges\<close> and
  \<open>latest_command\<close> are never assigned.\<close>

datatype constructed = Unstarted Contestant_base | Started Contestant

definition Contestant_init ::
  "str list \<Rightarrow> spawn_result \<Rightarrow> read_event \<Rightarrow> exn + (constructed \<times> str list)" where
  "Contestant_init args sp ev =
     (let self = \<lparr>call_args = args, exited = False, contestant_name = None\<rparr>;
          (self, out1) = start self sp
      in if exited self then Inr (Unstarted self, out1)
         else (case read_name self ev of
                 Inl e \<Rightarrow> Inl e
               | Inr (self, r, out2) \<Rightarrow>
                   Inr (Started \<lparr>call_args = call_args self, exited = exited self,
                                 contestant_name = Some r, bullets = 1, num_dodges = 0,
                                 latest_command = None, stdin = []\<rparr>,
                        out1 @ out2)))"

fun constructed_name :: "constructed \<Rightarrow> pyval" where
  "constructed_name (Unstarted self) = name self"
| "constructed_name (Started self) = name self"

fun constructed_exited :: "constructed \<Rightarrow> bool" where
  "constructed_exited (Unstarted self) = exited self"
| "constructed_exited (Started self) = exited self"

text \<open>\<open>ask\<close>: one query of a contestant. The input is whether \<open>poll()\<close> found the
  process running at the liveness check, and what the read then met. The result is the
  resolved command and the updated contestant.\<close>

definition ask :: "Contestant \<Rightarrow> bool \<times> read_event \<Rightarrow> exn + (Commands \<times> Contestant)" where
  "ask self inp =
     (if \<not> is_alive self (fst inp) then Inr (STAND, self)
      else case read TURN_TIME (snd inp) of
        Inl EOFError \<Rightarrow> Inr (STAND, self)
      | Inl TimeoutError \<Rightarrow> Inr (GAME_OVER, self)
      | Inl e \<Rightarrow> Inl e
      | Inr command \<Rightarrow>
          (case Commands_of (strip command) of
             Inl ValueError \<Rightarrow> Inr (STAND, self)
           | Inl e \<Rightarrow> Inl e
           | Inr command \<Rightarrow>
               if command \<notin> set [SHOOT, DODGE, RELOAD] then Inr (STAND, self)
               else if command = SHOOT \<and> bullets self = 0 then Inr (SHOOT_NO_BULLET, self)
               else
                 let self = (if command = SHOOT then self\<lparr>bullets := bullets self - 1\<rparr>
                             else self);
                     self = (if command = RELOAD
                             then (if bullets self = MAX_BULLETS then self
                                   else self\<lparr>bullets := bullets self + 1\<rparr>)
                             else self);
                     self = (if command = DODGE then self\<lparr>num_dodges := num_dodges self + 1\<rparr>
                             else self)
                 in Inr (command, self)))"

text \<open>\<open>tell\<close> appends the command's value and a newline to the contestant's stdin.
  Every command value is ASCII, so the encoding cannot fail.\<close>

definition tell :: "Contestant \<Rightarrow> Commands \<Rightarrow> Contestant" where
  "tell self command =
     self\<lparr>stdin := stdin self @ (case encode (value_of command) of Some bs \<Rightarrow> bs | None \<Rightarrow> [])
                    @ [CHR 0x0A]\<rparr>"

subsection \<open>Match state\<close>

text \<open>
  The state dictionary has the keys \<open>num_turn\<close>, \<open>a\<close>, \<open>b\<close> and, once assigned,
  \<open>winner\<close> and \<open>description\<close>; a missing key is \<open>None\<close>. The value stored under
  \<open>winner\<close> is one of the two contestant objects themselves, so it is modelled by the
  key of that object: reading \<open>winner.name\<close> reads the contestant stored under that key.
\<close>

datatype key = A | B

record State =
  num_turn :: int
  contestant_a :: Contestant
  contestant_b :: Contestant
  winner :: "key option"
  description :: "str option"

fun contestant :: "State \<Rightarrow> key \<Rightarrow> Contestant" where
  "contestant state A = contestant_a state"
| "contestant state B = contestant_b state"

type_synonym turn_input = "(bool \<times> read_event) \<times> (bool \<times> read_event)"

text \<open>\<open>loop\<close>: one turn. The result is the flag returned (\<open>True\<close> to continue) and
  the state.\<close>

definition loop :: "State \<Rightarrow> turn_input \<Rightarrow> exn + (bool \<times> State)" where
  "loop state inp =
     (case ask (contestant_a state) (fst inp) of
        Inl e \<Rightarrow> Inl e
      | Inr (command_a, ca) \<Rightarrow>
          let state = state\<lparr>contestant_a := ca\<lparr>latest_command := Some command_a\<rparr>\<rparr>
          in (case ask (contestant_b state) (snd inp) of
                Inl e \<Rightarrow> Inl e
              | Inr (command_b, cb) \<Rightarrow>
                  let state = state\<lparr>contestant_b := cb\<lparr>latest_command := Some command_b\<rparr>\<rparr>
                  in if GAME_OVER \<in> set [command_a, command_b] then
                       let winner_keys = [A, B];
                           winner_keys = (if command_a = GAME_OVER then remove1 A winner_keys
                                          else winner_keys);
                           winner_keys = (if command_b = GAME_OVER then remove1 B winner_keys
                                          else winner_keys)
                       in (case winner_keys of
                             [] \<Rightarrow> Inr (False, state)
                           | winner_key # _ \<Rightarrow> Inr (False, state\<lparr>winner := Some winner_key\<rparr>))
                     else
                       let unprotected = [SHOOT_NO_BULLET, RELOAD, STAND]
                       in if command_a = SHOOT \<and> command_b \<in> set unprotected
                          then Inr (False, state\<lparr>winner := Some A\<rparr>)
                          else if command_b = SHOOT \<and> command_a \<in> set unprotected
                          then Inr (False, state\<lparr>winner := Some B\<rparr>)
                          else
                            let state = state\<lparr>contestant_a :=
                                                tell (contestant_a state) command_b\<rparr>;
                                state = state\<lparr>contestant_b :=
                                                tell (contestant_b state) command_a\<rparr>;
                                state = state\<lparr>num_turn := num_turn state + 1\<rparr>
                            in if num_turn state \<ge> TOTAL_TURNS then Inr (False, state)
                               else Inr (True, state)))"

text \<open>\<open>finish\<close>; \<open>draw\<close> is the contestant that \<open>random.choice\<close> returns, should it
  be called. In the branch \<open>diff_dodges \<noteq> 0\<close> the source tests \<open>diff_dodges < 0\<close> and
  then \<open>diff_dodges > 0\<close>; one of the two holds there.\<close>

definition finish :: "State \<Rightarrow> key \<Rightarrow> State" where
  "finish state draw =
     (case winner state of
        None \<Rightarrow>
          let diff_dodges = num_dodges (contestant_a state) - num_dodges (contestant_b state)
          in if diff_dodges \<noteq> 0 then
               let w = (if diff_dodges < 0 then A else B)
               in state\<lparr>winner := Some w,
                        description := Some (fmt (name (contestant state w))
                          @ lit '' wins by having dodged '' @ str_of_int \<bar>diff_dodges\<bar>
                          @ lit '' times less'')\<rparr>
             else
               let w = draw
               in state\<lparr>winner := Some w,
                        description := Some (lit ''Toss a coin: ''
                          @ fmt (name (contestant state w)) @ lit '' wins.'')\<rparr>
      | Some w \<Rightarrow>
          state\<lparr>winner := Some w,
                description := Some (fmt (name (contestant state w)) @ lit '' wins'')\<rparr>)"

subsection \<open>Snapshots\<close>

record contestant_view =
  ui_name :: pyval
  ui_bullets :: int
  ui_command :: str
  ui_num_dodges :: int

record snapshot =
  ui_num_turn :: int
  ui_description :: str
  ui_a :: contestant_view
  ui_b :: contestant_view
  ui_winner_key :: "key option"

text \<open>The entry of one contestant; \<open>latest_command.value\<close> raises \<open>AttributeError\<close>
  while \<open>latest_command\<close> is still \<open>None\<close>.\<close>

definition view :: "Contestant \<Rightarrow> exn + contestant_view" where
  "view self =
     (case latest_command self of
        None \<Rightarrow> Inl AttributeError
      | Some command \<Rightarrow>
          Inr \<lparr>ui_name = name self, ui_bullets = bullets self, ui_command = value_of command,
               ui_num_dodges = num_dodges self\<rparr>)"

text \<open>\<open>write_to_ui_queue\<close> returns the snapshot it puts on the queue.\<close>

definition write_to_ui_queue :: "State \<Rightarrow> exn + snapshot" where
  "write_to_ui_queue state =
     (let description = (case description state of
                           Some d \<Rightarrow> d
                         | None \<Rightarrow> lit ''un truc au pif'')
      in case view (contestant_a state) of
           Inl e \<Rightarrow> Inl e
         | Inr va \<Rightarrow>
             (case view (contestant_b state) of
                Inl e \<Rightarrow> Inl e
              | Inr vb \<Rightarrow>
                  Inr \<lparr>ui_num_turn = num_turn state, ui_description = description,
                       ui_a = va, ui_b = vb, ui_winner_key = winner state\<rparr>))"

subsection \<open>The driver\<close>

text \<open>
  The \<open>while True\<close> loop of \<open>game\<close>, from the state that \<open>setup\<close> returned:
  \<open>inputs k\<close> is what the two contestants supply in the \<open>k\<close>-th iteration and
  \<open>draw\<close> what \<open>random.choice\<close> returns. The result is the list of snapshots put on
  the queue, in order, and the final state or the exception that ended the run. The
  \<open>finally\<close> clause only kills the two processes.
\<close>

function game ::
  "State \<Rightarrow> (nat \<Rightarrow> turn_input) \<Rightarrow> key \<Rightarrow> nat \<Rightarrow> snapshot list \<times> (exn + State)" where
  "game state inputs draw k =
     (case loop state (inputs k) of
        Inl e \<Rightarrow> ([], Inl e)
      | Inr (cont, state) \<Rightarrow>
          let state = (if \<not> cont then finish state draw else state)
          in (case write_to_ui_queue state of
                Inl e \<Rightarrow> ([], Inl e)
              | Inr new_state \<Rightarrow>
                  if \<not> cont then ([new_state], Inr state)
                  else (case game state inputs draw (Suc k) of
                          (rest, r) \<Rightarrow> (new_state # rest, r))))"
  by pat_completeness auto
termination
proof (relation "measure (\<lambda>(state, inputs, draw, k). nat (TOTAL_TURNS - num_turn state))")
  show "wf (measure (\<lambda>(state, inputs, draw, k). nat (TOTAL_TURNS - num_turn state)))"
    by simp
next
  fix state :: State and inputs :: "nat \<Rightarrow> turn_input" and draw :: key and k :: nat
    and x2 :: "bool \<times> State" and cont :: bool and state' state'' :: State and new_state :: snapshot
  assume l: "loop state (inputs k) = Inr x2" and x2: "(cont, state') = x2"
    and st: "state'' = (if \<not> cont then finish state' draw else state')"
    and c: "\<not> \<not> cont"
  from l x2 c have "loop state (inputs k) = Inr (True, state')" by auto
  then have "num_turn state' = num_turn state + 1 \<and> num_turn state' < TOTAL_TURNS"
    by (auto simp: loop_def Let_def split: sum.splits prod.splits if_splits list.splits)
  with st c
  show "((state'', inputs, draw, Suc k), (state, inputs, draw, k))
          \<in> measure (\<lambda>(state, inputs, draw, k). nat (TOTAL_TURNS - num_turn state))"
    by simp
qed

declare game.simps [simp del]

subsection \<open>Example inputs\<close>

text \<open>A contestant as \<open>__init__\<close> leaves it after a successful start, with the given
  name, ammunition and dodge count, and a match state over two of them.\<close>

definition example_contestant :: "str \<Rightarrow> int \<Rightarrow> int \<Rightarrow> Contestant" where
  "example_contestant nm b d =
     \<lparr>call_args = [lit ''./bot''], exited = False, contestant_name = Some (PyStr nm),
      bullets = b, num_dodges = d, latest_command = None, stdin = []\<rparr>"

definition example_state :: "int \<Rightarrow> int \<Rightarrow> int \<Rightarrow> State" where
  "example_state n ba bb =
     \<lparr>num_turn = n, contestant_a = example_contestant (lit ''Ann'') ba 0,
      contestant_b = example_contestant (lit ''Bob'') bb 0, winner = None,
      description = None\<rparr>"

subsection \<open>Sequences of queries\<close>

text \<open>
  \<open>run\<close> asks a contestant once for each input, as successive turns do, and lists the
  resolved command and the contestant after each query; it stops at an exception.
  \<open>within_rules pre steps\<close> checks every step of such a list against the state before
  it: ammunition stays in \<open>[0, MAX_BULLETS]\<close>, \<open>RELOAD\<close> does not lower it,
  \<open>SHOOT\<close> does not raise it, and the dodge count does not fall.
\<close>

fun run :: "Contestant \<Rightarrow> (bool \<times> read_event) list \<Rightarrow> (Commands \<times> Contestant) list" where
  "run self [] = []"
| "run self (inp # inps) =
     (case ask self inp of
        Inl e \<Rightarrow> []
      | Inr (command, self') \<Rightarrow> (command, self') # run self' inps)"

fun within_rules :: "Contestant \<Rightarrow> (Commands \<times> Contestant) list \<Rightarrow> bool" where
  "within_rules pre [] = True"
| "within_rules pre ((command, post) # steps) =
     (0 \<le> bullets post \<and> bullets post \<le> MAX_BULLETS
      \<and> (command = RELOAD \<longrightarrow> bullets pre \<le> bullets post)
      \<and> (command = SHOOT \<longrightarrow> bullets post \<le> bullets pre)
      \<and> num_dodges pre \<le> num_dodges post
      \<and> within_rules post steps)"

subsection \<open>Decisive turns\<close>

text \<open>The three tests of \<open>loop\<close> that return before the opponents are told and the turn
  counter is incremented: a \<open>GAME_OVER\<close> on either side, a shot of A at an unprotected B,
  a shot of B at an unprotected A.\<close>

definition decisive :: "Commands \<Rightarrow> Commands \<Rightarrow> bool" where
  "decisive command_a command_b =
     (GAME_OVER \<in> set [command_a, command_b]
      \<or> (command_a = SHOOT \<and> command_b \<in> set [SHOOT_NO_BULLET, RELOAD, STAND])
      \<or> (command_b = SHOOT \<and> command_a \<in> set [SHOOT_NO_BULLET, RELOAD, STAND]))"

text \<open>Two turns: A dodges while B stands, then both stand.\<close>

definition example_inputs :: "nat \<Rightarrow> turn_input" where
  "example_inputs k =
     (if k = 0 then ((True, Line ''dodge\<newline>''), (True, Line ''stand\<newline>''))
      else ((True, Line ''stand\<newline>''), (True, Line ''stand\<newline>'')))"

text \<open>A first turn in which A's line is the single byte \<open>0xFF\<close>, which is not UTF-8.\<close>

definition garbled_inputs :: "nat \<Rightarrow> turn_input" where
  "garbled_inputs k = ((True, Line [CHR 0xFF, CHR 0x0A]), (True, Line ''stand\<newline>''))"

section \<open>Properties\<close>

subsection \<open>Tokens and text\<close>

lemma lit_eq_iff: "lit s = lit t \<longleftrightarrow> s = t"
proof -
  have "inj (of_char :: char \<Rightarrow> nat)"
    by (rule inj_on_inverseI [where g = char_of]) simp
  then show ?thesis by (simp add: lit_def inj_map_eq_map)
qed

lemma Commands_of_value: "Commands_of (value_of c) = Inr c"
  by (cases c) (simp_all add: Commands_of_def lit_eq_iff)

lemma Commands_of_Inr: "Commands_of s = Inr c \<longleftrightarrow> s = value_of c"
  by (cases c) (auto simp: Commands_of_def lit_eq_iff split: list.splits if_splits)

lemma Commands_of_cases: "Commands_of s = Inl ValueError \<or> (\<exists>c. Commands_of s = Inr c)"
  by (auto simp: Commands_of_def split: list.splits)

lemma strip_value: "strip (value_of c) = value_of c"
  by (cases c) (simp_all add: strip_def lit_def isspace_def)

lemma dropWhile_strip: "dropWhile isspace (strip s) = strip s"
proof (cases "strip s")
  case Nil
  then show ?thesis by simp
next
  case (Cons c cs)
  define t where "t = dropWhile isspace s"
  have "rev t = takeWhile isspace (rev t) @ dropWhile isspace (rev t)" by simp
  then have "t = strip s @ rev (takeWhile isspace (rev t))"
    unfolding strip_def t_def by (metis rev_append rev_rev_ident)
  with Cons have t: "t = c # cs @ rev (takeWhile isspace (rev t))" by simp
  then have "t \<noteq> []" by auto
  then have "\<not> isspace (hd t)" unfolding t_def by (rule hd_dropWhile)
  with t have "\<not> isspace c" by (metis list.sel(1))
  with Cons show ?thesis by simp
qed

lemma strip_strip: "strip (strip s) = strip s"
proof -
  have "dropWhile isspace (rev (strip s)) = rev (strip s)"
    by (simp add: strip_def)
  then show ?thesis
    by (simp add: strip_def[of "strip s"] dropWhile_strip)
qed

lemma read_Inr_strip: "read timeout ev = Inr s \<Longrightarrow> strip s = s"
  by (cases ev) (auto simp: strip_strip split: sum.splits)

lemma utf8_decode_ascii:
  "\<forall>b\<in>set bs. b < 128 \<Longrightarrow> utf8_decode bs = Some bs"
  by (induction bs) simp_all

lemma decode_ascii: "\<forall>c\<in>set line. of_char c < (128::nat) \<Longrightarrow> decode line = Inr (lit line)"
  by (simp add: decode_def lit_def utf8_decode_ascii)

lemma utf8_encode_ascii:
  "\<forall>b\<in>set s. b < 128 \<Longrightarrow> utf8_encode s = Some s"
  by (induction s) (simp_all add: encode_point_def)

lemma encode_ascii: "\<forall>c\<in>set s. of_char c < (128::nat) \<Longrightarrow> encode (lit s) = Some s"
  by (simp add: encode_def lit_def utf8_encode_ascii comp_def)

lemma encode_value:
  "encode (value_of c) = Some (case c of STAND \<Rightarrow> ''stand'' | SHOOT \<Rightarrow> ''shoot''
     | DODGE \<Rightarrow> ''dodge'' | RELOAD \<Rightarrow> ''reload'' | SHOOT_NO_BULLET \<Rightarrow> ''shoot_no_bullet''
     | GAME_OVER \<Rightarrow> ''game_over'')"
  by (cases c) (simp_all add: encode_ascii)

lemma read_written_value:
  assumes "encode (value_of c) = Some bs"
  shows "read timeout (Line (bs @ [CHR 0x0A])) = Inr (value_of c)"
proof -
  from assms have bs: "bs = (case c of STAND \<Rightarrow> ''stand'' | SHOOT \<Rightarrow> ''shoot''
     | DODGE \<Rightarrow> ''dodge'' | RELOAD \<Rightarrow> ''reload'' | SHOOT_NO_BULLET \<Rightarrow> ''shoot_no_bullet''
     | GAME_OVER \<Rightarrow> ''game_over'')"
    by (simp add: encode_value)
  show ?thesis unfolding bs
    by (cases c) (simp_all add: decode_ascii strip_def lit_def isspace_def)
qed

subsection \<open>One query of a contestant\<close>

lemma ask_not_alive: "\<not> is_alive self running \<Longrightarrow> ask self (running, ev) = Inr (STAND, self)"
  by (simp add: ask_def)

lemma ask_exited:
  "is_alive self running \<Longrightarrow> ask self (running, ProcessExited) = Inr (STAND, self)"
  by (simp add: ask_def)

lemma ask_timeout:
  "is_alive self running \<Longrightarrow> ask self (running, QueueEmpty) = Inr (GAME_OVER, self)"
  by (simp add: ask_def)

lemma ask_undecodable:
  "is_alive self running \<Longrightarrow> decode line = Inl UnicodeDecodeError
     \<Longrightarrow> ask self (running, Line line) = Inl UnicodeDecodeError"
  by (simp add: ask_def)

lemma ask_invalid:
  assumes "is_alive self running" and "read TURN_TIME ev = Inr s"
    and "s \<notin> {lit ''shoot'', lit ''dodge'', lit ''reload''}"
  shows "ask self (running, ev) = Inr (STAND, self)"
proof -
  have s: "strip s = s" using assms(2) by (rule read_Inr_strip)
  show ?thesis
  proof (cases "Commands_of s")
    case (Inl e)
    with Commands_of_cases [of s] have "Commands_of s = Inl ValueError" by auto
    with assms(1,2) s show ?thesis by (simp add: ask_def)
  next
    case (Inr c)
    then have "s = value_of c" by (simp add: Commands_of_Inr)
    with assms(3) have "c \<notin> {SHOOT, DODGE, RELOAD}" by (cases c) auto
    with assms(1,2) s Inr show ?thesis by (simp add: ask_def)
  qed
qed

lemma ask_token:
  assumes "is_alive self running" and "read TURN_TIME ev = Inr (value_of c)"
  shows "ask self (running, ev) =
     (case c of
        SHOOT \<Rightarrow> if bullets self = 0 then Inr (SHOOT_NO_BULLET, self)
                  else Inr (SHOOT, self\<lparr>bullets := bullets self - 1\<rparr>)
      | RELOAD \<Rightarrow> if bullets self = MAX_BULLETS then Inr (RELOAD, self)
                   else Inr (RELOAD, self\<lparr>bullets := bullets self + 1\<rparr>)
      | DODGE \<Rightarrow> Inr (DODGE, self\<lparr>num_dodges := num_dodges self + 1\<rparr>)
      | _ \<Rightarrow> Inr (STAND, self))"
  using assms
  by (cases c) (simp_all add: ask_def strip_value Commands_of_value del: value_of.simps)

text \<open>
  Claim C2. For a live contestant whose read returned the text \<open>s\<close>: \<open>shoot\<close> with
  ammunition above zero takes one bullet and resolves to \<open>SHOOT\<close>; \<open>shoot\<close> with no
  ammunition changes nothing and resolves to \<open>SHOOT_NO_BULLET\<close>; \<open>reload\<close> at
  \<open>MAX_BULLETS\<close> changes nothing and below it adds one bullet, resolving to \<open>RELOAD\<close>;
  \<open>dodge\<close> adds one to the dodge count and resolves to \<open>DODGE\<close>; \<open>stand\<close> resolves
  to \<open>STAND\<close> and changes nothing.
\<close>

theorem ask_interprets_tokens:
  assumes "is_alive self running" and "read TURN_TIME ev = Inr s"
  shows "(s = lit ''shoot'' \<and> bullets self > 0 \<longrightarrow>
            ask self (running, ev) = Inr (SHOOT, self\<lparr>bullets := bullets self - 1\<rparr>))
       \<and> (s = lit ''shoot'' \<and> bullets self = 0 \<longrightarrow>
            ask self (running, ev) = Inr (SHOOT_NO_BULLET, self))
       \<and> (s = lit ''reload'' \<and> bullets self = MAX_BULLETS \<longrightarrow>
            ask self (running, ev) = Inr (RELOAD, self))
       \<and> (s = lit ''reload'' \<and> bullets self < MAX_BULLETS \<longrightarrow>
            ask self (running, ev) = Inr (RELOAD, self\<lparr>bullets := bullets self + 1\<rparr>))
       \<and> (s = lit ''dodge'' \<longrightarrow>
            ask self (running, ev) = Inr (DODGE, self\<lparr>num_dodges := num_dodges self + 1\<rparr>))
       \<and> (s = lit ''stand'' \<longrightarrow> ask self (running, ev) = Inr (STAND, self))"
  using ask_token [OF assms(1), of ev SHOOT] ask_token [OF assms(1), of ev RELOAD]
    ask_token [OF assms(1), of ev DODGE] ask_token [OF assms(1), of ev STAND] assms(2)
  by auto

lemma read_example_lines:
  "read t (Line ''shoot\<newline>'') = Inr (lit ''shoot'')"
  "read t (Line ''reload\<newline>'') = Inr (lit ''reload'')"
  "read t (Line ''dodge\<newline>'') = Inr (lit ''dodge'')"
  "read t (Line ''stand\<newline>'') = Inr (lit ''stand'')"
  by (simp_all add: decode_ascii strip_def lit_def isspace_def)

lemma example_alive: "is_alive (example_contestant nm b d) True"
  by (simp add: is_alive_def example_contestant_def)

lemma example_contestant_simps:
  "bullets (example_contestant nm b d) = b"
  "num_dodges (example_contestant nm b d) = d"
  "example_contestant nm b d\<lparr>bullets := b'\<rparr> = example_contestant nm b' d"
  "example_contestant nm b d\<lparr>num_dodges := d'\<rparr> = example_contestant nm b d'"
  by (simp_all add: example_contestant_def)

theorem ask_interprets_tokens_witness:
  "ask (example_contestant (lit ''Ann'') 1 0) (True, Line ''shoot\<newline>'')
     = Inr (SHOOT, example_contestant (lit ''Ann'') 0 0)
   \<and> ask (example_contestant (lit ''Ann'') 0 0) (True, Line ''shoot\<newline>'')
     = Inr (SHOOT_NO_BULLET, example_contestant (lit ''Ann'') 0 0)
   \<and> ask (example_contestant (lit ''Ann'') 6 0) (True, Line ''reload\<newline>'')
     = Inr (RELOAD, example_contestant (lit ''Ann'') 6 0)
   \<and> ask (example_contestant (lit ''Ann'') 5 0) (True, Line ''reload\<newline>'')
     = Inr (RELOAD, example_contestant (lit ''Ann'') 6 0)
   \<and> ask (example_contestant (lit ''Ann'') 1 0) (True, Line ''dodge\<newline>'')
     = Inr (DODGE, example_contestant (lit ''Ann'') 1 1)
   \<and> ask (example_contestant (lit ''Ann'') 1 0) (True, Line ''stand\<newline>'')
     = Inr (STAND, example_contestant (lit ''Ann'') 1 0)"
  using
    ask_interprets_tokens [OF example_alive read_example_lines(1), of "lit ''Ann''" 1 0]
    ask_interprets_tokens [OF example_alive read_example_lines(1), of "lit ''Ann''" 0 0]
    ask_interprets_tokens [OF example_alive read_example_lines(2), of "lit ''Ann''" 6 0]
    ask_interprets_tokens [OF example_alive read_example_lines(2), of "lit ''Ann''" 5 0]
    ask_interprets_tokens [OF example_alive read_example_lines(3), of "lit ''Ann''" 1 0]
    ask_interprets_tokens [OF example_alive read_example_lines(4), of "lit ''Ann''" 1 0]
  by (simp add: example_contestant_simps MAX_BULLETS_def)

subsection \<open>Ammunition and dodge counts\<close>

lemma ask_step:
  assumes "ask self inp = Inr (command, self')"
    and "0 \<le> bullets self" and "bullets self \<le> MAX_BULLETS"
  shows "0 \<le> bullets self' \<and> bullets self' \<le> MAX_BULLETS
       \<and> (command = RELOAD \<longrightarrow> bullets self \<le> bullets self')
       \<and> (command = SHOOT \<longrightarrow> bullets self' \<le> bullets self)
       \<and> num_dodges self \<le> num_dodges self'"
  using assms
  by (auto simp: ask_def Let_def split: if_splits sum.splits exn.splits)

lemma run_within_rules:
  "0 \<le> bullets self \<Longrightarrow> bullets self \<le> MAX_BULLETS \<Longrightarrow> within_rules self (run self inps)"
proof (induction inps arbitrary: self)
  case Nil
  show ?case by simp
next
  case (Cons inp inps)
  show ?case
  proof (cases "ask self inp")
    case (Inl e)
    then show ?thesis by simp
  next
    case (Inr r)
    obtain command self' where r: "r = (command, self')" by (cases r)
    from Inr r have a: "ask self inp = Inr (command, self')" by simp
    note s = ask_step [OF a Cons.prems]
    from s have "within_rules self' (run self' inps)" by (intro Cons.IH) simp_all
    with s a show ?thesis by simp
  qed
qed

lemma Contestant_init_Started:
  assumes "Contestant_init args sp ev = Inr (Started self, out)"
  shows "bullets self = 1 \<and> num_dodges self = 0"
  using assms
  by (auto simp: Contestant_init_def Let_def split: prod.splits if_splits sum.splits)

text \<open>
  Claim C3. A contestant that \<open>__init__\<close> constructed starts with one bullet and no
  dodges, and over every sequence of queries from there its ammunition stays within
  \<open>[0, MAX_BULLETS]\<close> with \<open>MAX_BULLETS = 6\<close>, a resolved \<open>RELOAD\<close> never lowers it,
  a resolved \<open>SHOOT\<close> never raises it, and the dodge count never falls.
\<close>

theorem ammunition_and_dodges_within_rules:
  assumes "Contestant_init args sp ev = Inr (Started self, out)"
  shows "bullets self = 1 \<and> num_dodges self = 0 \<and> MAX_BULLETS = 6
       \<and> within_rules self (run self inps)"
proof -
  from Contestant_init_Started [OF assms] have b: "bullets self = 1" "num_dodges self = 0"
    by simp_all
  from b have "within_rules self (run self inps)"
    by (intro run_within_rules) (simp_all add: MAX_BULLETS_def)
  with b show ?thesis by (simp add: MAX_BULLETS_def)
qed

lemma Contestant_init_example:
  "Contestant_init [lit ''./bot''] Spawned (Line ''Ann\<newline>'')
     = Inr (Started (example_contestant (lit ''Ann'') 1 0), [])"
  by (simp add: Contestant_init_def start_def read_name_def decode_ascii strip_def isspace_def
      lit_def example_contestant_def)

lemma read_example_values:
  "read t (Line ''shoot\<newline>'') = Inr (value_of SHOOT)"
  "read t (Line ''reload\<newline>'') = Inr (value_of RELOAD)"
  "read t (Line ''dodge\<newline>'') = Inr (value_of DODGE)"
  "read t (Line ''stand\<newline>'') = Inr (value_of STAND)"
  by (simp_all add: read_example_lines del: read.simps)

lemma ask_example:
  "ask (example_contestant nm b d) (True, Line ''shoot\<newline>'') =
     (if b = 0 then Inr (SHOOT_NO_BULLET, example_contestant nm b d)
      else Inr (SHOOT, example_contestant nm (b - 1) d))"
  "ask (example_contestant nm b d) (True, Line ''reload\<newline>'') =
     (if b = 6 then Inr (RELOAD, example_contestant nm b d)
      else Inr (RELOAD, example_contestant nm (b + 1) d))"
  "ask (example_contestant nm b d) (True, Line ''dodge\<newline>'') =
     Inr (DODGE, example_contestant nm b (d + 1))"
  "ask (example_contestant nm b d) (True, Line ''stand\<newline>'') =
     Inr (STAND, example_contestant nm b d)"
  using ask_token [OF example_alive read_example_values(1), of nm b d]
    ask_token [OF example_alive read_example_values(2), of nm b d]
    ask_token [OF example_alive read_example_values(3), of nm b d]
    ask_token [OF example_alive read_example_values(4), of nm b d]
  by (simp_all add: example_contestant_simps MAX_BULLETS_def)

lemma run_example:
  "run (example_contestant (lit ''Ann'') 1 0)
     [(True, Line ''shoot\<newline>''), (True, Line ''shoot\<newline>''),
      (True, Line ''reload\<newline>''), (True, Line ''dodge\<newline>'')]
   = [(SHOOT, example_contestant (lit ''Ann'') 0 0),
      (SHOOT_NO_BULLET, example_contestant (lit ''Ann'') 0 0),
      (RELOAD, example_contestant (lit ''Ann'') 1 0),
      (DODGE, example_contestant (lit ''Ann'') 1 1)]"
  by (simp add: ask_example)

theorem ammunition_and_dodges_within_rules_witness:
  "within_rules (example_contestant (lit ''Ann'') 1 0)
     [(SHOOT, example_contestant (lit ''Ann'') 0 0),
      (SHOOT_NO_BULLET, example_contestant (lit ''Ann'') 0 0),
      (RELOAD, example_contestant (lit ''Ann'') 1 0),
      (DODGE, example_contestant (lit ''Ann'') 1 1)]"
  using ammunition_and_dodges_within_rules [OF Contestant_init_example,
      of "[(True, Line ''shoot\<newline>''), (True, Line ''shoot\<newline>''),
           (True, Line ''reload\<newline>''), (True, Line ''dodge\<newline>'')]"]
  by (simp only: run_example)

subsection \<open>One turn\<close>

lemma loop_resolved:
  assumes "ask (contestant_a state) (fst inp) = Inr (command_a, ca)"
    and "ask (contestant_b state) (snd inp) = Inr (command_b, cb)"
  shows "loop state inp =
     (let s = state\<lparr>contestant_a := ca\<lparr>latest_command := Some command_a\<rparr>,
                    contestant_b := cb\<lparr>latest_command := Some command_b\<rparr>\<rparr>
      in if command_a = GAME_OVER \<and> command_b = GAME_OVER then Inr (False, s)
         else if command_a = GAME_OVER then Inr (False, s\<lparr>winner := Some B\<rparr>)
         else if command_b = GAME_OVER then Inr (False, s\<lparr>winner := Some A\<rparr>)
         else if command_a = SHOOT \<and> command_b \<in> {SHOOT_NO_BULLET, RELOAD, STAND}
         then Inr (False, s\<lparr>winner := Some A\<rparr>)
         else if command_b = SHOOT \<and> command_a \<in> {SHOOT_NO_BULLET, RELOAD, STAND}
         then Inr (False, s\<lparr>winner := Some B\<rparr>)
         else Inr (num_turn state + 1 < TOTAL_TURNS,
                   s\<lparr>contestant_a := tell (ca\<lparr>latest_command := Some command_a\<rparr>) command_b,
                     contestant_b := tell (cb\<lparr>latest_command := Some command_b\<rparr>) command_a,
                     num_turn := num_turn state + 1\<rparr>))"
  using assms by (auto simp: loop_def Let_def)

lemma loop_raises:
  "ask (contestant_a state) (fst inp) = Inl e \<Longrightarrow> loop state inp = Inl e"
  "ask (contestant_a state) (fst inp) = Inr (command_a, ca)
     \<Longrightarrow> ask (contestant_b state) (snd inp) = Inl e \<Longrightarrow> loop state inp = Inl e"
  by (simp_all add: loop_def Let_def)

text \<open>
  Claim C5. When at least one resolved command is \<open>GAME_OVER\<close> the turn returns
  \<open>False\<close>, so the match ends on that turn; if only A's command is \<open>GAME_OVER\<close> the
  winner is B, if only B's the winner is A, and if both are the turn assigns no winner:
  the entry \<open>winner\<close> stays as it was and is left to \<open>finish\<close>.
\<close>

theorem game_over_ends_match:
  assumes "ask (contestant_a state) (fst inp) = Inr (command_a, ca)"
    and "ask (contestant_b state) (snd inp) = Inr (command_b, cb)"
    and "command_a = GAME_OVER \<or> command_b = GAME_OVER"
  shows "\<exists>state'. loop state inp = Inr (False, state')
           \<and> (command_a = GAME_OVER \<and> command_b \<noteq> GAME_OVER \<longrightarrow> winner state' = Some B)
           \<and> (command_b = GAME_OVER \<and> command_a \<noteq> GAME_OVER \<longrightarrow> winner state' = Some A)
           \<and> (command_a = GAME_OVER \<and> command_b = GAME_OVER \<longrightarrow> winner state' = winner state)"
  using assms(3) by (auto simp: loop_resolved [OF assms(1,2)] Let_def)

lemma example_state_simps:
  "contestant_a (example_state n ba bb) = example_contestant (lit ''Ann'') ba 0"
  "contestant_b (example_state n ba bb) = example_contestant (lit ''Bob'') bb 0"
  "num_turn (example_state n ba bb) = n"
  "winner (example_state n ba bb) = None"
  "description (example_state n ba bb) = None"
  by (simp_all add: example_state_def)

lemma ask_example_timeout:
  "ask (example_contestant nm b d) (True, QueueEmpty) = Inr (GAME_OVER, example_contestant nm b d)"
  by (simp add: ask_timeout example_alive)

theorem game_over_ends_match_witness:
  "(\<exists>state'. loop (example_state 3 1 1) ((True, QueueEmpty), (True, Line ''stand\<newline>''))
               = Inr (False, state') \<and> winner state' = Some B)
   \<and> (\<exists>state'. loop (example_state 3 1 1) ((True, Line ''dodge\<newline>''), (True, QueueEmpty))
               = Inr (False, state') \<and> winner state' = Some A)
   \<and> (\<exists>state'. loop (example_state 3 1 1) ((True, QueueEmpty), (True, QueueEmpty))
               = Inr (False, state') \<and> winner state' = None)"
  using
    game_over_ends_match [of "example_state 3 1 1"
      "((True, QueueEmpty), (True, Line ''stand\<newline>''))" GAME_OVER
      "example_contestant (lit ''Ann'') 1 0" STAND "example_contestant (lit ''Bob'') 1 0"]
    game_over_ends_match [of "example_state 3 1 1"
      "((True, Line ''dodge\<newline>''), (True, QueueEmpty))" DODGE
      "example_contestant (lit ''Ann'') 1 1" GAME_OVER "example_contestant (lit ''Bob'') 1 0"]
    game_over_ends_match [of "example_state 3 1 1"
      "((True, QueueEmpty), (True, QueueEmpty))" GAME_OVER
      "example_contestant (lit ''Ann'') 1 0" GAME_OVER "example_contestant (lit ''Bob'') 1 0"]
  by (simp add: example_state_simps ask_example ask_example_timeout)




lemma loop_Inr_asks:
  assumes "loop state inp = Inr (cont, state')"
  shows "\<exists>command_a ca command_b cb.
           ask (contestant_a state) (fst inp) = Inr (command_a, ca)
         \<and> ask (contestant_b state) (snd inp) = Inr (command_b, cb)"
proof (cases "ask (contestant_a state) (fst inp)")
  case (Inl e)
  with assms loop_raises(1) [of state inp e] show ?thesis by simp
next
  case a: (Inr ra)
  obtain command_a ca where ra: "ra = (command_a, ca)" by (cases ra)
  show ?thesis
  proof (cases "ask (contestant_b state) (snd inp)")
    case (Inl e)
    with assms a ra loop_raises(2) [of state inp command_a ca e] show ?thesis by simp
  next
    case (Inr rb)
    with a ra show ?thesis by (cases rb) simp
  qed
qed

lemma latest_command_tell: "latest_command (tell self command) = latest_command self"
  by (simp add: tell_def)

lemma loop_effect:
  assumes "loop state inp = Inr (cont, state')"
  shows "\<exists>command_a command_b.
           latest_command (contestant_a state') = Some command_a
         \<and> latest_command (contestant_b state') = Some command_b
         \<and> cont = (\<not> decisive command_a command_b \<and> num_turn state + 1 < TOTAL_TURNS)
         \<and> num_turn state' = (if decisive command_a command_b then num_turn state
                               else num_turn state + 1)
         \<and> description state' = description state
         \<and> (\<not> decisive command_a command_b \<longrightarrow> winner state' = winner state)"
proof -
  from loop_Inr_asks [OF assms] obtain command_a ca command_b cb
    where a: "ask (contestant_a state) (fst inp) = Inr (command_a, ca)"
      and b: "ask (contestant_b state) (snd inp) = Inr (command_b, cb)" by blast
  have "latest_command (contestant_a state') = Some command_a
         \<and> latest_command (contestant_b state') = Some command_b
         \<and> cont = (\<not> decisive command_a command_b \<and> num_turn state + 1 < TOTAL_TURNS)
         \<and> num_turn state' = (if decisive command_a command_b then num_turn state
                               else num_turn state + 1)
         \<and> description state' = description state
         \<and> (\<not> decisive command_a command_b \<longrightarrow> winner state' = winner state)"
    using assms unfolding loop_resolved [OF a b] Let_def decisive_def
    by (auto simp: latest_command_tell split: if_splits)
  then show ?thesis by blast
qed

subsection \<open>The outcome resolver and the snapshots\<close>

lemma finish_frame:
  "num_turn (finish state draw) = num_turn state"
  "contestant_a (finish state draw) = contestant_a state"
  "contestant_b (finish state draw) = contestant_b state"
  by (simp_all add: finish_def Let_def split: option.splits)

lemma write_to_ui_queue_Inr:
  assumes "latest_command (contestant_a state) = Some command_a"
    and "latest_command (contestant_b state) = Some command_b"
  shows "\<exists>new_state. write_to_ui_queue state = Inr new_state
           \<and> ui_num_turn new_state = num_turn state
           \<and> ui_description new_state =
               (case description state of Some d \<Rightarrow> d | None \<Rightarrow> lit ''un truc au pif'')
           \<and> ui_winner_key new_state = winner state"
  using assms by (simp add: write_to_ui_queue_def view_def Let_def)

subsection \<open>The whole match\<close>

lemma game_raise: "loop state (inputs k) = Inl e \<Longrightarrow> game state inputs draw k = ([], Inl e)"
  by (simp add: game.simps [of state inputs draw k])

lemma game_stop:
  assumes "loop state (inputs k) = Inr (False, state')"
  shows "\<exists>new_state. write_to_ui_queue (finish state' draw) = Inr new_state
           \<and> game state inputs draw k = ([new_state], Inr (finish state' draw))"
proof -
  from loop_effect [OF assms] obtain command_a command_b
    where "latest_command (contestant_a (finish state' draw)) = Some command_a"
      and "latest_command (contestant_b (finish state' draw)) = Some command_b"
    by (auto simp: finish_frame)
  from write_to_ui_queue_Inr [OF this] obtain new_state
    where "write_to_ui_queue (finish state' draw) = Inr new_state" by blast
  with assms show ?thesis by (simp add: game.simps [of state inputs draw k])
qed

lemma game_cont:
  assumes "loop state (inputs k) = Inr (True, state')"
  shows "\<exists>new_state. write_to_ui_queue state' = Inr new_state
           \<and> game state inputs draw k =
               (new_state # fst (game state' inputs draw (Suc k)),
                snd (game state' inputs draw (Suc k)))"
proof -
  from loop_effect [OF assms] obtain command_a command_b
    where "latest_command (contestant_a state') = Some command_a"
      and "latest_command (contestant_b state') = Some command_b"
    by auto
  from write_to_ui_queue_Inr [OF this] obtain new_state
    where "write_to_ui_queue state' = Inr new_state" by blast
  with assms show ?thesis
    by (simp add: game.simps [of state inputs draw k] split: prod.splits)
qed

lemma game_cases:
  obtains (raise) e where "loop state (inputs k) = Inl e"
      and "game state inputs draw k = ([], Inl e)"
  | (stop) state' new_state where "loop state (inputs k) = Inr (False, state')"
      and "write_to_ui_queue (finish state' draw) = Inr new_state"
      and "game state inputs draw k = ([new_state], Inr (finish state' draw))"
  | (cont) state' new_state where "loop state (inputs k) = Inr (True, state')"
      and "write_to_ui_queue state' = Inr new_state"
      and "game state inputs draw k =
             (new_state # fst (game state' inputs draw (Suc k)),
              snd (game state' inputs draw (Suc k)))"
proof (cases "loop state (inputs k)")
  case (Inl e)
  from raise [OF Inl game_raise [of state inputs k e draw, OF Inl]] show ?thesis .
next
  case (Inr r)
  obtain c state' where r: "r = (c, state')" by (cases r)
  show ?thesis
  proof (cases c)
    case True
    with Inr r have l: "loop state (inputs k) = Inr (True, state')" by simp
    from game_cont [of state inputs k state' draw, OF l] obtain new_state
      where "write_to_ui_queue state' = Inr new_state"
        and "game state inputs draw k =
               (new_state # fst (game state' inputs draw (Suc k)),
                snd (game state' inputs draw (Suc k)))" by blast
    from cont [OF l this] show ?thesis .
  next
    case False
    with Inr r have l: "loop state (inputs k) = Inr (False, state')" by simp
    from game_stop [of state inputs k state' draw, OF l] obtain new_state
      where "write_to_ui_queue (finish state' draw) = Inr new_state"
        and "game state inputs draw k = ([new_state], Inr (finish state' draw))" by blast
    from stop [OF l this] show ?thesis .
  qed
qed

lemma game_induct_cont:
  assumes "\<And>state k. (\<And>state'. loop state (inputs k) = Inr (True, state') \<Longrightarrow> P state' (Suc k))
             \<Longrightarrow> P state k"
  shows "P state k"
proof -
  have "inputs' = inputs \<longrightarrow> P state k" for inputs' and draw :: key
  proof (induction state inputs' draw k rule: game.induct)
    case (1 state inputs' draw k)
    show ?case
    proof
      assume eq: "inputs' = inputs"
      show "P state k"
      proof (rule assms)
        fix state'
        assume l: "loop state (inputs k) = Inr (True, state')"
        from game_cont [of state inputs k state', OF l] obtain new_state
          where w: "write_to_ui_queue state' = Inr new_state" by blast
        from "1.IH" [of "(True, state')" True state' state' new_state] l w eq
        show "P state' (Suc k)" by simp
      qed
    qed
  qed
  then show ?thesis by simp
qed



lemma ask_line:
  assumes "\<not> exited self"
  shows "ask self (True, Line ''shoot\<newline>'') =
           (if bullets self = 0 then Inr (SHOOT_NO_BULLET, self)
            else Inr (SHOOT, self\<lparr>bullets := bullets self - 1\<rparr>))"
    and "ask self (True, Line ''reload\<newline>'') =
           (if bullets self = MAX_BULLETS then Inr (RELOAD, self)
            else Inr (RELOAD, self\<lparr>bullets := bullets self + 1\<rparr>))"
    and "ask self (True, Line ''dodge\<newline>'') =
           Inr (DODGE, self\<lparr>num_dodges := num_dodges self + 1\<rparr>)"
    and "ask self (True, Line ''stand\<newline>'') = Inr (STAND, self)"
proof -
  from assms have a: "is_alive self True" by (simp add: is_alive_def)
  show "ask self (True, Line ''shoot\<newline>'') =
           (if bullets self = 0 then Inr (SHOOT_NO_BULLET, self)
            else Inr (SHOOT, self\<lparr>bullets := bullets self - 1\<rparr>))"
    using ask_token [OF a read_example_values(1)] by simp
  show "ask self (True, Line ''reload\<newline>'') =
           (if bullets self = MAX_BULLETS then Inr (RELOAD, self)
            else Inr (RELOAD, self\<lparr>bullets := bullets self + 1\<rparr>))"
    using ask_token [OF a read_example_values(2)] by simp
  show "ask self (True, Line ''dodge\<newline>'') =
           Inr (DODGE, self\<lparr>num_dodges := num_dodges self + 1\<rparr>)"
    using ask_token [OF a read_example_values(3)] by simp
  show "ask self (True, Line ''stand\<newline>'') = Inr (STAND, self)"
    using ask_token [OF a read_example_values(4)] by simp
qed

lemma tell_example:
  "tell self STAND = self\<lparr>stdin := stdin self @ ''stand\<newline>''\<rparr>"
  "tell self DODGE = self\<lparr>stdin := stdin self @ ''dodge\<newline>''\<rparr>"
  by (simp_all add: tell_def encode_ascii)

lemma game_example:
  "game (example_state 98 1 1) example_inputs A 0 =
     ([\<lparr>ui_num_turn = 99, ui_description = lit ''un truc au pif'',
        ui_a = \<lparr>ui_name = PyStr (lit ''Ann''), ui_bullets = 1, ui_command = lit ''dodge'',
                ui_num_dodges = 1\<rparr>,
        ui_b = \<lparr>ui_name = PyStr (lit ''Bob''), ui_bullets = 1, ui_command = lit ''stand'',
                ui_num_dodges = 0\<rparr>,
        ui_winner_key = None\<rparr>,
       \<lparr>ui_num_turn = 100,
        ui_description = lit ''Bob wins by having dodged 1 times less'',
        ui_a = \<lparr>ui_name = PyStr (lit ''Ann''), ui_bullets = 1, ui_command = lit ''stand'',
                ui_num_dodges = 1\<rparr>,
        ui_b = \<lparr>ui_name = PyStr (lit ''Bob''), ui_bullets = 1, ui_command = lit ''stand'',
                ui_num_dodges = 0\<rparr>,
        ui_winner_key = Some B\<rparr>],
      Inr \<lparr>num_turn = 100,
           contestant_a = \<lparr>call_args = [lit ''./bot''], exited = False,
              contestant_name = Some (PyStr (lit ''Ann'')), bullets = 1, num_dodges = 1,
              latest_command = Some STAND, stdin = ''stand\<newline>stand\<newline>''\<rparr>,
           contestant_b = \<lparr>call_args = [lit ''./bot''], exited = False,
              contestant_name = Some (PyStr (lit ''Bob'')), bullets = 1, num_dodges = 0,
              latest_command = Some STAND, stdin = ''dodge\<newline>stand\<newline>''\<rparr>,
           winner = Some B,
           description = Some (lit ''Bob wins by having dodged 1 times less'')\<rparr>)"
proof -
  have "digits 1 = [49]" by (simp add: digits.simps)
  then show ?thesis
    by (simp add: game.simps [of _ _ _ 0] game.simps [of _ _ _ "Suc 0"] loop_def Let_def
        example_inputs_def example_state_def example_contestant_def ask_line tell_example
        TOTAL_TURNS_def finish_def write_to_ui_queue_def view_def name_def str_of_int_def
        lit_def)
qed



lemma finish_sets:
  "\<exists>w d. winner (finish state draw) = Some w \<and> description (finish state draw) = Some d
         \<and> d \<noteq> []"
proof (cases "winner state")
  case None
  then show ?thesis
    by (cases "num_dodges (contestant_a state) = num_dodges (contestant_b state)")
      (simp_all add: finish_def Let_def lit_def)
next
  case (Some w)
  then show ?thesis by (simp add: finish_def lit_def)
qed

lemma game_final:
  "game state inputs draw k = (snaps, Inr final) \<Longrightarrow>
     snaps \<noteq> [] \<and> (\<exists>state'. final = finish state' draw)
     \<and> ui_winner_key (last snaps) = winner final
     \<and> description final = Some (ui_description (last snaps))"
proof (induction state k arbitrary: snaps rule: game_induct_cont [where inputs = inputs])
  case (1 state k)
  show ?case
  proof (cases rule: game_cases [of state inputs k draw])
    case (raise e)
    with "1.prems" show ?thesis by simp
  next
    case (stop state' new_state)
    from finish_sets [of state' draw] obtain d
      where d: "description (finish state' draw) = Some d" by blast
    from loop_effect [OF stop(1)] obtain command_a command_b
      where "latest_command (contestant_a (finish state' draw)) = Some command_a"
        and "latest_command (contestant_b (finish state' draw)) = Some command_b"
      by (auto simp: finish_frame)
    from write_to_ui_queue_Inr [OF this] stop(2) d
    have "ui_winner_key new_state = winner (finish state' draw)"
      "ui_description new_state = d" by auto
    with stop(3) "1.prems" d show ?thesis by auto
  next
    case (cont state' new_state)
    obtain rest where rest: "game state' inputs draw (Suc k) = (rest, Inr final)"
      and snaps: "snaps = new_state # rest"
      using cont(3) "1.prems" by (cases "game state' inputs draw (Suc k)") auto
    from "1.IH" [OF cont(1) rest] snaps show ?thesis by auto
  qed
qed

text \<open>
  Claim C6. When \<open>finish\<close> runs with no winner assigned, the contestant with strictly
  fewer dodges becomes the winner and the description cites the absolute difference of
  the dodge counts; with equal counts the winner is the contestant that the random draw
  returned and the description notes the coin toss. The three conditions exclude each
  other, so one path is taken. The state that \<open>game\<close> ends with is the one \<open>finish\<close>
  produced, and the last snapshot reports its winner and description.
\<close>

theorem finish_resolves_outcome:
  "(winner state = None \<longrightarrow>
      (num_dodges (contestant_a state) < num_dodges (contestant_b state) \<longrightarrow>
         winner (finish state draw) = Some A
         \<and> description (finish state draw) =
             Some (fmt (name (contestant_a state)) @ lit '' wins by having dodged ''
                   @ str_of_int (num_dodges (contestant_b state) - num_dodges (contestant_a state))
                   @ lit '' times less''))
    \<and> (num_dodges (contestant_b state) < num_dodges (contestant_a state) \<longrightarrow>
         winner (finish state draw) = Some B
         \<and> description (finish state draw) =
             Some (fmt (name (contestant_b state)) @ lit '' wins by having dodged ''
                   @ str_of_int (num_dodges (contestant_a state) - num_dodges (contestant_b state))
                   @ lit '' times less''))
    \<and> (num_dodges (contestant_a state) = num_dodges (contestant_b state) \<longrightarrow>
         winner (finish state draw) = Some draw
         \<and> description (finish state draw) =
             Some (lit ''Toss a coin: '' @ fmt (name (contestant state draw)) @ lit '' wins.'')))
   \<and> (game state0 inputs draw k = (snaps, Inr final) \<longrightarrow>
        snaps \<noteq> [] \<and> (\<exists>state'. final = finish state' draw)
        \<and> ui_winner_key (last snaps) = winner final
        \<and> description final = Some (ui_description (last snaps)))"
proof (intro conjI impI)
  assume g: "game state0 inputs draw k = (snaps, Inr final)"
  from game_final [OF g] show "snaps \<noteq> []" "\<exists>state'. final = finish state' draw"
    "ui_winner_key (last snaps) = winner final"
    "description final = Some (ui_description (last snaps))"
    by simp_all
qed (simp_all add: finish_def Let_def abs_if)

lemma digits_small: "digits 1 = [49]" "digits (Suc 0) = [49]" "digits 2 = [50]"
  by (simp_all add: digits.simps)

theorem finish_resolves_outcome_witness:
  "(winner (finish (example_state 100 1 1
                     \<lparr>contestant_b := example_contestant (lit ''Bob'') 1 2\<rparr>) B) = Some A
    \<and> description (finish (example_state 100 1 1
                     \<lparr>contestant_b := example_contestant (lit ''Bob'') 1 2\<rparr>) B)
        = Some (lit ''Ann wins by having dodged 2 times less''))
   \<and> (winner (finish (example_state 100 1 1
                     \<lparr>contestant_a := example_contestant (lit ''Ann'') 1 1\<rparr>) A) = Some B
    \<and> description (finish (example_state 100 1 1
                     \<lparr>contestant_a := example_contestant (lit ''Ann'') 1 1\<rparr>) A)
        = Some (lit ''Bob wins by having dodged 1 times less''))
   \<and> (winner (finish (example_state 100 1 1) B) = Some B
    \<and> description (finish (example_state 100 1 1) B) = Some (lit ''Toss a coin: Bob wins.''))
   \<and> (\<exists>snaps final. game (example_state 98 1 1) example_inputs A 0 = (snaps, Inr final)
         \<and> ui_winner_key (last snaps) = Some B \<and> winner final = Some B
         \<and> description final = Some (lit ''Bob wins by having dodged 1 times less'')
         \<and> ui_description (last snaps) = lit ''Bob wins by having dodged 1 times less'')"
proof (intro conjI)
  note ev = example_state_def example_contestant_def name_def str_of_int_def digits_small
    lit_def
  show "winner (finish (example_state 100 1 1
                     \<lparr>contestant_b := example_contestant (lit ''Bob'') 1 2\<rparr>) B) = Some A"
    "description (finish (example_state 100 1 1
                     \<lparr>contestant_b := example_contestant (lit ''Bob'') 1 2\<rparr>) B)
        = Some (lit ''Ann wins by having dodged 2 times less'')"
    using finish_resolves_outcome
      [of "example_state 100 1 1\<lparr>contestant_b := example_contestant (lit ''Bob'') 1 2\<rparr>" B,
       THEN conjunct1]
    by (simp_all add: ev)
  show "winner (finish (example_state 100 1 1
                     \<lparr>contestant_a := example_contestant (lit ''Ann'') 1 1\<rparr>) A) = Some B"
    "description (finish (example_state 100 1 1
                     \<lparr>contestant_a := example_contestant (lit ''Ann'') 1 1\<rparr>) A)
        = Some (lit ''Bob wins by having dodged 1 times less'')"
    using finish_resolves_outcome
      [of "example_state 100 1 1\<lparr>contestant_a := example_contestant (lit ''Ann'') 1 1\<rparr>" A,
       THEN conjunct1]
    by (simp_all add: ev)
  show "winner (finish (example_state 100 1 1) B) = Some B"
    "description (finish (example_state 100 1 1) B) = Some (lit ''Toss a coin: Bob wins.'')"
    using finish_resolves_outcome [of "example_state 100 1 1" B, THEN conjunct1]
    by (simp_all add: ev)
  show "\<exists>snaps final. game (example_state 98 1 1) example_inputs A 0 = (snaps, Inr final)
         \<and> ui_winner_key (last snaps) = Some B \<and> winner final = Some B
         \<and> description final = Some (lit ''Bob wins by having dodged 1 times less'')
         \<and> ui_description (last snaps) = lit ''Bob wins by having dodged 1 times less''"
    using finish_resolves_outcome [of _ A "example_state 98 1 1"
      example_inputs 0 "fst (game (example_state 98 1 1) example_inputs A 0)"
      "projr (snd (game (example_state 98 1 1) example_inputs A 0))", THEN conjunct2]
    by (simp add: game_example)
qed

lemma game_descriptions:
  "description state = None \<Longrightarrow> game state inputs draw k = (snaps, r) \<Longrightarrow>
     (case r of
        Inl e \<Rightarrow> \<forall>s\<in>set snaps. ui_description s = lit ''un truc au pif''
      | Inr final \<Rightarrow>
          snaps \<noteq> [] \<and> (\<forall>s\<in>set (butlast snaps). ui_description s = lit ''un truc au pif'')
          \<and> ui_description (last snaps) \<noteq> []
          \<and> description final = Some (ui_description (last snaps)))"
proof (induction state k arbitrary: snaps rule: game_induct_cont [where inputs = inputs])
  case (1 state k)
  show ?case
  proof (cases rule: game_cases [of state inputs k draw])
    case (raise e)
    with "1.prems" show ?thesis by auto
  next
    case (stop state' new_state)
    from finish_sets [of state' draw] obtain d
      where d: "description (finish state' draw) = Some d" "d \<noteq> []" by blast
    from loop_effect [OF stop(1)] obtain command_a command_b
      where "latest_command (contestant_a (finish state' draw)) = Some command_a"
        and "latest_command (contestant_b (finish state' draw)) = Some command_b"
      by (auto simp: finish_frame)
    from write_to_ui_queue_Inr [OF this] stop(2) d
    have "ui_description new_state = d" by auto
    with stop(3) "1.prems" d show ?thesis by auto
  next
    case (cont state' new_state)
    from loop_effect [OF cont(1)] "1.prems"(1) obtain command_a command_b
      where c: "latest_command (contestant_a state') = Some command_a"
        "latest_command (contestant_b state') = Some command_b"
        and n: "description state' = None"
      by auto
    from write_to_ui_queue_Inr [OF c] cont(2) n
    have p: "ui_description new_state = lit ''un truc au pif''" by auto
    obtain rest where rest: "game state' inputs draw (Suc k) = (rest, r)"
      and snaps: "snaps = new_state # rest"
      using cont(3) "1.prems"(2) by (cases "game state' inputs draw (Suc k)") auto
    from "1.IH" [OF cont(1) n rest] snaps p show ?thesis
      by (cases r) auto
  qed
qed

text \<open>
  Claim C8, as stated, fails: a snapshot written before the match ends does not carry
  an empty description. In the two-turn match of the example the first snapshot, written
  after the first turn while the match goes on, carries the text \<open>un truc au pif\<close>.
\<close>

theorem placeholder_description_counterexample:
  "length (fst (game (example_state 98 1 1) example_inputs A 0)) = 2
   \<and> ui_description (hd (fst (game (example_state 98 1 1) example_inputs A 0)))
       = lit ''un truc au pif''
   \<and> ui_description (hd (fst (game (example_state 98 1 1) example_inputs A 0))) \<noteq> []"
  by (simp add: game_example lit_def)

text \<open>
  Claim C8, amended. In a match that starts with no description in the state, every
  snapshot written before the match ends carries the fixed text \<open>un truc au pif\<close>, which
  is not empty; the last snapshot, written after \<open>finish\<close>, carries the description
  that \<open>finish\<close> stored in the state, which is not empty either. If the run is cut short
  by an exception, every snapshot written until then carries the fixed text.
\<close>

theorem snapshot_descriptions:
  assumes "description state = None" and "game state inputs draw k = (snaps, r)"
  shows "(\<forall>final. r = Inr final \<longrightarrow>
            snaps \<noteq> []
          \<and> (\<forall>s\<in>set (butlast snaps). ui_description s = lit ''un truc au pif'')
          \<and> ui_description (last snaps) \<noteq> []
          \<and> description final = Some (ui_description (last snaps)))
       \<and> (\<forall>e. r = Inl e \<longrightarrow> (\<forall>s\<in>set snaps. ui_description s = lit ''un truc au pif''))
       \<and> lit ''un truc au pif'' \<noteq> []"
  using game_descriptions [OF assms] by (cases r) (simp_all add: lit_def)

theorem snapshot_descriptions_witness:
  "length (fst (game (example_state 98 1 1) example_inputs A 0)) = 2
   \<and> map ui_description (butlast (fst (game (example_state 98 1 1) example_inputs A 0)))
       = [lit ''un truc au pif'']
   \<and> ui_description (last (fst (game (example_state 98 1 1) example_inputs A 0)))
       = lit ''Bob wins by having dodged 1 times less''
   \<and> ui_description (last (fst (game (example_state 98 1 1) example_inputs A 0))) \<noteq> []"
  using snapshot_descriptions [of "example_state 98 1 1" example_inputs A 0
      "fst (game (example_state 98 1 1) example_inputs A 0)"
      "snd (game (example_state 98 1 1) example_inputs A 0)"]
  by (simp add: game_example example_state_simps)

subsection \<open>Echoing the arbiter's messages\<close>

lemma tell_writes:
  "stdin (tell self command) = stdin self @ line \<longleftrightarrow>
     line = (case command of STAND \<Rightarrow> ''stand'' | SHOOT \<Rightarrow> ''shoot''
       | DODGE \<Rightarrow> ''dodge'' | RELOAD \<Rightarrow> ''reload'' | SHOOT_NO_BULLET \<Rightarrow> ''shoot_no_bullet''
       | GAME_OVER \<Rightarrow> ''game_over'') @ [CHR 0x0A]"
  by (auto simp: tell_def encode_value simp del: value_of.simps)

lemma read_told:
  assumes "stdin (tell other command) = stdin other @ line"
  shows "read timeout (Line line) = Inr (value_of command)"
proof -
  obtain bs where bs: "encode (value_of command) = Some bs" by (simp add: encode_value)
  with assms have "line = bs @ [CHR 0x0A]" by (simp add: tell_def)
  with read_written_value [OF bs] show ?thesis by simp
qed

text \<open>
  Claim C7, as stated, fails for the token \<open>shoot_no_bullet\<close>: the arbiter writes
  it, but \<open>ask\<close> accepts only \<open>SHOOT\<close>, \<open>DODGE\<close> and \<open>RELOAD\<close> from a contestant, so
  the echoed line resolves to \<open>STAND\<close>. An echoed \<open>shoot\<close> read from a contestant
  without ammunition resolves to \<open>SHOOT_NO_BULLET\<close>.
\<close>

theorem echo_counterexample:
  "stdin (tell (example_contestant (lit ''Ann'') 1 0) SHOOT_NO_BULLET) = ''shoot_no_bullet\<newline>''
   \<and> ask (example_contestant (lit ''Ann'') 1 0) (True, Line ''shoot_no_bullet\<newline>'')
       = Inr (STAND, example_contestant (lit ''Ann'') 1 0)
   \<and> stdin (tell (example_contestant (lit ''Ann'') 0 0) SHOOT) = ''shoot\<newline>''
   \<and> ask (example_contestant (lit ''Ann'') 0 0) (True, Line ''shoot\<newline>'')
       = Inr (SHOOT_NO_BULLET, example_contestant (lit ''Ann'') 0 0)"
proof -
  have t: "stdin (tell (example_contestant (lit ''Ann'') 1 0) SHOOT_NO_BULLET)
             = stdin (example_contestant (lit ''Ann'') 1 0) @ ''shoot_no_bullet\<newline>''"
    by (simp add: tell_writes)
  have "ask (example_contestant (lit ''Ann'') 1 0) (True, Line ''shoot_no_bullet\<newline>'')
       = Inr (STAND, example_contestant (lit ''Ann'') 1 0)"
    using ask_token [OF example_alive read_told [OF t]] by simp
  moreover have "stdin (example_contestant nm b d) = []" for nm b d
    by (simp add: example_contestant_def)
  ultimately show ?thesis
    by (simp add: tell_def encode_ascii ask_example)
qed

text \<open>
  Claim C7, amended. Let \<open>line\<close> be what \<open>tell\<close> writes for a command, and let a live
  contestant answer with that line. For \<open>stand\<close>, \<open>dodge\<close> and \<open>reload\<close>, and for
  \<open>shoot\<close> when the contestant asked has ammunition, \<open>ask\<close> resolves the line to the
  command that was written; \<open>shoot\<close> read from a contestant without ammunition resolves
  to \<open>SHOOT_NO_BULLET\<close>; the token \<open>shoot_no_bullet\<close> is not accepted from a contestant
  and resolves to \<open>STAND\<close>.
\<close>

theorem echo_round_trip:
  assumes "is_alive self running"
    and "stdin (tell other command) = stdin other @ line"
  shows "(command \<in> {STAND, DODGE, RELOAD} \<or> (command = SHOOT \<and> bullets self \<noteq> 0) \<longrightarrow>
            map_sum id fst (ask self (running, Line line)) = Inr command)
       \<and> (command = SHOOT \<and> bullets self = 0 \<longrightarrow>
            map_sum id fst (ask self (running, Line line)) = Inr SHOOT_NO_BULLET)
       \<and> (command = SHOOT_NO_BULLET \<longrightarrow>
            map_sum id fst (ask self (running, Line line)) = Inr STAND)"
  using ask_token [OF assms(1) read_told [OF assms(2)]]
  by (cases command) simp_all

theorem echo_round_trip_witness:
  "map_sum id fst (ask (example_contestant (lit ''Ann'') 1 0) (True, Line ''stand\<newline>''))
     = Inr STAND
   \<and> map_sum id fst (ask (example_contestant (lit ''Ann'') 1 0) (True, Line ''dodge\<newline>''))
     = Inr DODGE
   \<and> map_sum id fst (ask (example_contestant (lit ''Ann'') 1 0) (True, Line ''reload\<newline>''))
     = Inr RELOAD
   \<and> map_sum id fst (ask (example_contestant (lit ''Ann'') 1 0) (True, Line ''shoot\<newline>''))
     = Inr SHOOT
   \<and> map_sum id fst (ask (example_contestant (lit ''Ann'') 0 0) (True, Line ''shoot\<newline>''))
     = Inr SHOOT_NO_BULLET
   \<and> map_sum id fst
        (ask (example_contestant (lit ''Ann'') 1 0) (True, Line ''shoot_no_bullet\<newline>''))
     = Inr STAND"
  using
    echo_round_trip [OF example_alive, of "example_contestant (lit ''Bob'') 1 0" STAND
      "''stand\<newline>''" "lit ''Ann''" 1 0]
    echo_round_trip [OF example_alive, of "example_contestant (lit ''Bob'') 1 0" DODGE
      "''dodge\<newline>''" "lit ''Ann''" 1 0]
    echo_round_trip [OF example_alive, of "example_contestant (lit ''Bob'') 1 0" RELOAD
      "''reload\<newline>''" "lit ''Ann''" 1 0]
    echo_round_trip [OF example_alive, of "example_contestant (lit ''Bob'') 1 0" SHOOT
      "''shoot\<newline>''" "lit ''Ann''" 1 0]
    echo_round_trip [OF example_alive, of "example_contestant (lit ''Bob'') 1 0" SHOOT
      "''shoot\<newline>''" "lit ''Ann''" 0 0]
    echo_round_trip [OF example_alive, of "example_contestant (lit ''Bob'') 1 0" SHOOT_NO_BULLET
      "''shoot_no_bullet\<newline>''" "lit ''Ann''" 1 0]
  by (simp add: tell_writes example_contestant_simps)

subsection \<open>Undecodable lines\<close>

text \<open>
  Claim C4 holds for a dead process, an exited process, a timeout and a line that
  decodes (lemmas \<open>ask_not_alive\<close>, \<open>ask_exited\<close>, \<open>ask_timeout\<close>,
  \<open>ask_invalid\<close>), but not for every line: \<open>read\<close> decodes the line inside the
  \<open>try\<close> block of \<open>ask\<close> that catches \<open>EOFError\<close> and \<open>TimeoutError\<close> only, so a
  line that is not UTF-8 leaves \<open>ask\<close>, \<open>loop\<close> and \<open>game\<close> as a raised
  \<open>UnicodeDecodeError\<close>. Here A answers its first turn with the byte \<open>0xFF\<close>.
\<close>

theorem undecodable_line_raises:
  "ask (example_contestant (lit ''Ann'') 1 0) (True, Line [CHR 0xFF, CHR 0x0A])
     = Inl UnicodeDecodeError
   \<and> loop (example_state 0 1 1) (garbled_inputs 0) = Inl UnicodeDecodeError
   \<and> game (example_state 0 1 1) garbled_inputs A 0 = ([], Inl UnicodeDecodeError)"
proof -
  have d: "decode [CHR 0xFF, CHR 0x0A] = Inl UnicodeDecodeError"
    by (simp add: decode_def)
  have a: "ask (example_contestant (lit ''Ann'') 1 0) (True, Line [CHR 0xFF, CHR 0x0A])
             = Inl UnicodeDecodeError"
    by (rule ask_undecodable [OF example_alive d])
  then have l: "loop (example_state 0 1 1) (garbled_inputs 0) = Inl UnicodeDecodeError"
    by (intro loop_raises(1)) (simp add: example_state_simps garbled_inputs_def)
  from a l game_raise [of "example_state 0 1 1" garbled_inputs 0 UnicodeDecodeError A]
  show ?thesis by simp
qed

subsection \<open>Display names\<close>

lemma name_after_failed_spawn:
  "Contestant_init args FileNotFoundError ev = Inr (obj, out) \<Longrightarrow>
     constructed_name obj = PyStr (join (lit '' '') args)"
  "Contestant_init args PermissionError ev = Inr (obj, out) \<Longrightarrow>
     constructed_name obj = PyStr (join (lit '' '') args)"
  by (auto simp: Contestant_init_def start_def name_def Let_def)

text \<open>
  Claim C9 holds after a failed spawn (lemma \<open>name_after_failed_spawn\<close>) and for the
  message printed when the startup read fails, which names the contestant by its
  invocation string. It does not hold for the object that \<open>__init__\<close> leaves:
  \<open>read_name\<close> returns \<open>None\<close> after \<open>EOFError\<close> or \<open>TimeoutError\<close>, \<open>__init__\<close>
  assigns that to \<open>contestant_name\<close>, and from then on the \<open>name\<close> property finds
  the attribute and returns \<open>None\<close>, not the invocation string. Here the program
  \<open>./bot\<close> exits, or stays silent, before it has written its name.
\<close>

theorem name_is_None_after_startup_failure:
  "Contestant_init [lit ''./bot''] Spawned ProcessExited
     = Inr (Started \<lparr>call_args = [lit ''./bot''], exited = True,
                     contestant_name = Some PyNone, bullets = 1, num_dodges = 0,
                     latest_command = None, stdin = []\<rparr>,
            [lit ''./bot exited''])
   \<and> Contestant_init [lit ''./bot''] Spawned QueueEmpty
     = Inr (Started \<lparr>call_args = [lit ''./bot''], exited = True,
                     contestant_name = Some PyNone, bullets = 1, num_dodges = 0,
                     latest_command = None, stdin = []\<rparr>,
            [lit ''./bot took more than 10 seconds to output its name''])
   \<and> name \<lparr>call_args = [lit ''./bot''], exited = True, contestant_name = Some PyNone,
            bullets = 1, num_dodges = 0, latest_command = None, stdin = []\<rparr> = PyNone
   \<and> PyNone \<noteq> PyStr (lit ''./bot'')"
proof -
  have "digits 10 = [49, 48]"
    by (simp add: digits.simps [of 10] digits_small)
  then show ?thesis
    by (simp add: Contestant_init_def start_def read_name_def name_def Let_def
        STARTUP_TIME_def str_of_int_def lit_def)
qed

end
